theory Spec2Isabelle
  imports Complex_Main "HOL-Library.Sublist" "HOL-Library.List_Lexorder"
begin

section \<open>Python text\<close>

text \<open>
  A Python \<open>str\<close> is a sequence of Unicode code points. The program handles the
  characters U+20B9 (rupee sign), U+21E1 and U+21E3 (dashed arrows), which are not
  bytes, so text is modelled as a list of code points. ASCII literals are written
  with \<open>ascii\<close>.
\<close>

type_synonym ustr = "nat list"

definition ascii :: "string \<Rightarrow> ustr" where
  "ascii s = map of_char s"

definition rupee :: nat where
  "rupee = 8377"

definition arrow_up :: nat where
  "arrow_up = 8673"

definition arrow_down :: nat where
  "arrow_down = 8675"

text \<open>
  \<open>str.isspace\<close> for one code point: the characters that \<open>str.strip()\<close> without
  argument removes from both ends of a string.
\<close>

definition isspace :: "nat \<Rightarrow> bool" where
  "isspace c \<longleftrightarrow>
     (9 \<le> c \<and> c \<le> 13) \<or> (28 \<le> c \<and> c \<le> 32) \<or> c = 133 \<or> c = 160 \<or> c = 5760
     \<or> (8192 \<le> c \<and> c \<le> 8202) \<or> c = 8232 \<or> c = 8233 \<or> c = 8239 \<or> c = 8287
     \<or> c = 12288"

definition strip :: "ustr \<Rightarrow> ustr" where
  "strip s = rev (dropWhile isspace (rev (dropWhile isspace s)))"

text \<open>\<open>sep in s\<close> for strings: \<open>sep\<close> occurs in \<open>s\<close> as a contiguous piece.\<close>

fun contains :: "ustr \<Rightarrow> ustr \<Rightarrow> bool" where
  "contains sep [] = (sep = [])"
| "contains sep (c # cs) = (prefix sep (c # cs) \<or> contains sep cs)"

text \<open>
  \<open>s.split(sep)\<close> for a separator that is not empty (Python raises ValueError on an
  empty one; the program only splits on the literal \<open>page=\<close>). \<open>cur\<close> is the piece
  being read. Occurrences are found from the left and do not overlap.
\<close>

function split_from :: "ustr \<Rightarrow> ustr \<Rightarrow> ustr \<Rightarrow> ustr list" where
  "split_from sep cur [] = [cur]"
| "split_from sep cur (c # cs) =
     (if sep \<noteq> [] \<and> prefix sep (c # cs)
      then cur # split_from sep [] (drop (length sep) (c # cs))
      else split_from sep (cur @ [c]) cs)"
  by pat_completeness auto
termination
  by (relation "measure (\<lambda>(sep, cur, s). length s)") (auto simp: neq_Nil_conv)

definition split :: "ustr \<Rightarrow> ustr \<Rightarrow> ustr list" where
  "split sep s = split_from sep [] s"

text \<open>\<open>new.join(pieces)\<close>.\<close>

fun join :: "ustr \<Rightarrow> ustr list \<Rightarrow> ustr" where
  "join new [] = []"
| "join new [p] = p"
| "join new (p # q # ps) = p @ new @ join new (q # ps)"

text \<open>
  \<open>s.replace(old, new)\<close> for \<open>old\<close> not empty: every occurrence of \<open>old\<close>, read from
  the left, becomes \<open>new\<close>.
\<close>

definition replace :: "ustr \<Rightarrow> ustr \<Rightarrow> ustr \<Rightarrow> ustr" where
  "replace old new s = join new (split old s)"

section \<open>The parsed page\<close>

text \<open>
  BeautifulSoup turns the text of a response into a tree of tags and strings. The
  model starts from that tree: a node is a string or a tag with its name, its
  attributes (a dictionary, as an association list with distinct keys) and its
  children in document order. The strings of the tree are those that \<open>.text\<close> of
  an \<open>a\<close> or \<open>td\<close> tag returns, the only tags whose text the program reads:
  comments and the strings inside \<open>script\<close>, \<open>style\<close> and \<open>template\<close> tags, which
  \<open>.text\<close> leaves out, are not in the tree.
\<close>

datatype node = Text ustr | Elem string "(string \<times> ustr) list" "node list"

text \<open>The nodes below a node, in document order (\<open>Tag.descendants\<close>).\<close>

fun descendants :: "node \<Rightarrow> node list" where
  "descendants (Text t) = []"
| "descendants (Elem name attrs cs) = concat (map (\<lambda>c. c # descendants c) cs)"

text \<open>\<open>.text\<close>: the strings below the node, concatenated.\<close>

fun get_text :: "node \<Rightarrow> ustr" where
  "get_text (Text t) = t"
| "get_text (Elem name attrs cs) = concat (map get_text cs)"

fun is_tag :: "string \<Rightarrow> node \<Rightarrow> bool" where
  "is_tag name (Text t) = False"
| "is_tag name (Elem n attrs cs) = (n = name)"

text \<open>\<open>node.find_all(name)\<close> and \<open>node.find(name)\<close>; \<open>None\<close> when there is no such tag.\<close>

definition find_all :: "string \<Rightarrow> node \<Rightarrow> node list" where
  "find_all name n = filter (is_tag name) (descendants n)"

definition find_tag :: "string \<Rightarrow> node \<Rightarrow> node option" where
  "find_tag name n = List.find (is_tag name) (descendants n)"

text \<open>\<open>tag.get(key)\<close>: the value of an attribute, \<open>None\<close> when the tag has none.\<close>

fun attr :: "node \<Rightarrow> string \<Rightarrow> ustr option" where
  "attr (Text t) key = None"
| "attr (Elem name attrs cs) key = map_of attrs key"

text \<open>
  The \<open>class\<close> attribute holds a list of class names, separated by whitespace;
  \<open>class_=c\<close> selects the tags that carry the class \<open>c\<close>.
\<close>

fun class_names :: "ustr \<Rightarrow> ustr \<Rightarrow> ustr list" where
  "class_names cur [] = (if cur = [] then [] else [cur])"
| "class_names cur (c # cs) =
     (if isspace c then (if cur = [] then [] else [cur]) @ class_names [] cs
      else class_names (cur @ [c]) cs)"

definition has_class :: "string \<Rightarrow> node \<Rightarrow> bool" where
  "has_class c n =
     (case attr n ''class'' of None \<Rightarrow> False
      | Some v \<Rightarrow> ascii c \<in> set (class_names [] v))"

definition find_class :: "string \<Rightarrow> string \<Rightarrow> node \<Rightarrow> node option" where
  "find_class name c n = List.find (\<lambda>d. is_tag name d \<and> has_class c d) (descendants n)"

section \<open>Exceptions\<close>

text \<open>
  The exceptions the program can end with. A function that may raise returns
  \<open>error + 'a\<close>, with \<open>Inl\<close> for the exception; \<open>and_then\<close> runs the rest of a
  block only when the step before it did not raise.
\<close>

datatype error = AttributeError | TypeError | IndexError | KeyError | ValueError | OSError

definition and_then :: "error + 'a \<Rightarrow> ('a \<Rightarrow> error + 'b) \<Rightarrow> error + 'b" where
  "and_then m f = (case m of Inl e \<Rightarrow> Inl e | Inr x \<Rightarrow> f x)"

text \<open>\<open>xs[i]\<close> for \<open>i \<ge> 0\<close>: IndexError past the end.\<close>

definition index :: "'a list \<Rightarrow> nat \<Rightarrow> error + 'a" where
  "index xs i = (if i < length xs then Inr (xs ! i) else Inl IndexError)"

text \<open>\<open>tag[key]\<close>: KeyError when the tag has no such attribute.\<close>

definition getitem :: "node \<Rightarrow> string \<Rightarrow> error + ustr" where
  "getitem n key = (case attr n key of None \<Rightarrow> Inl KeyError | Some v \<Rightarrow> Inr v)"

section \<open>The page parser\<close>

subsection \<open>\<open>_extract_pagination_info\<close>\<close>

text \<open>
  \<open>int(s)\<close> is Python's own: it is a parameter \<open>int_of\<close> of the functions that
  use it, \<open>None\<close> standing for ValueError. \<open>int_ascii\<close> is \<open>int(s)\<close> on text whose
  digits are ASCII: whitespace around the number is dropped, one sign may come
  first, and single underscores may stand between digits.
\<close>

definition digit_of :: "nat \<Rightarrow> nat option" where
  "digit_of c = (if 48 \<le> c \<and> c \<le> 57 then Some (c - 48) else None)"

fun digits_from :: "nat \<Rightarrow> ustr \<Rightarrow> nat option" where
  "digits_from n [] = Some n"
| "digits_from n [c] = map_option (\<lambda>v. 10 * n + v) (digit_of c)"
| "digits_from n (c # d # ds) =
     (if c = 95
      then (case digit_of d of None \<Rightarrow> None | Some v \<Rightarrow> digits_from (10 * n + v) ds)
      else (case digit_of c of None \<Rightarrow> None | Some v \<Rightarrow> digits_from (10 * n + v) (d # ds)))"

definition unsigned_ascii :: "ustr \<Rightarrow> nat option" where
  "unsigned_ascii s =
     (case s of [] \<Rightarrow> None
      | c # cs \<Rightarrow> (case digit_of c of None \<Rightarrow> None | Some v \<Rightarrow> digits_from v cs))"

definition int_ascii :: "ustr \<Rightarrow> int option" where
  "int_ascii s =
     (case strip s of [] \<Rightarrow> None
      | c # cs \<Rightarrow>
          if c = 45 then map_option (\<lambda>n. - int n) (unsigned_ascii cs)
          else if c = 43 then map_option int (unsigned_ascii cs)
          else map_option int (unsigned_ascii (c # cs)))"

text \<open>
  The loop over the links of the pagination control. \<open>link.get('href', '')\<close> is the
  empty string for a link without address; a ValueError of \<open>int\<close> is caught and the
  link passed over.
\<close>

fun scan_links :: "(ustr \<Rightarrow> int option) \<Rightarrow> node list \<Rightarrow> int \<Rightarrow> error + int" where
  "scan_links int_of [] max_page = Inr max_page"
| "scan_links int_of (link # links) max_page =
     (if contains (ascii ''page='') (case attr link ''href'' of None \<Rightarrow> [] | Some h \<Rightarrow> h)
      then and_then (getitem link ''href'') (\<lambda>href.
           and_then (index (split (ascii ''page='') href) 1) (\<lambda>piece.
           case int_of piece of
             None \<Rightarrow> scan_links int_of links max_page
           | Some page_num \<Rightarrow> scan_links int_of links (max max_page page_num)))
      else scan_links int_of links max_page)"

definition extract_pagination_info :: "(ustr \<Rightarrow> int option) \<Rightarrow> node \<Rightarrow> error + int" where
  "extract_pagination_info int_of soup =
     (case find_class ''div'' ''pagination'' soup of
        None \<Rightarrow> Inr 1
      | Some pagination \<Rightarrow> scan_links int_of (find_all ''a'' pagination) 1)"

subsection \<open>\<open>_extract_ipo_data\<close>\<close>

text \<open>The dictionary of one listing: its seven keys are the fields of a record.\<close>

record ipo_data =
  Company :: ustr
  Company_Link :: ustr
  Listing_Date :: ustr
  IPO_MCap :: ustr
  IPO_Price :: ustr
  Current_Price :: ustr
  Percent_Change :: ustr

text \<open>
  The function returns \<open>None\<close> for a row without cells and for a row whose first
  cell holds no \<open>a\<close> tag, and the pair of the identifier and the dictionary
  otherwise. Reading the address of the link and the cells 1 to 5 can raise.
\<close>

definition extract_ipo_data :: "ustr \<Rightarrow> node \<Rightarrow> error + (ustr \<times> ipo_data) option" where
  "extract_ipo_data base_url row =
     (let cells = find_all ''td'' row in
      if cells = [] then Inr None
      else case find_tag ''a'' (cells ! 0) of
        None \<Rightarrow> Inr None
      | Some name_cell \<Rightarrow>
          let company_name = strip (get_text name_cell) in
          and_then (getitem name_cell ''href'') (\<lambda>company_link.
          and_then (index cells 1) (\<lambda>c1.
          let ipo_id = company_name @ ascii ''_'' @ strip (get_text c1) in
          and_then (index cells 2) (\<lambda>c2.
          and_then (index cells 3) (\<lambda>c3.
          and_then (index cells 4) (\<lambda>c4.
          and_then (index cells 5) (\<lambda>c5.
          Inr (Some (ipo_id,
            \<lparr> Company = company_name,
              Company_Link = base_url @ company_link,
              Listing_Date = strip (get_text c1),
              IPO_MCap = strip (get_text c2),
              IPO_Price = strip (replace [rupee] [] (get_text c3)),
              Current_Price = strip (replace [rupee] [] (get_text c4)),
              Percent_Change =
                replace [arrow_up] (ascii ''+'')
                  (replace [arrow_down] (ascii ''-'') (strip (get_text c5))) \<rparr>)))))))))"

section \<open>The world outside the program\<close>

text \<open>
  A file holds a JSON array of strings (what \<open>json.dump\<close> writes for a list of
  identifiers), the rows of a spreadsheet with the seven columns of a listing, or
  something else. Files holding other JSON values or other tables are not modelled.
  A cell of a spreadsheet is given by the text it shows: a number by its digits,
  an empty cell by the empty text.
\<close>

datatype contents = Json "ustr list" | Table "ipo_data list" | Garbage

text \<open>
  What the program does to the world is recorded in a trace: the requests it
  sends, the pauses it makes and the files it writes. Logging is not modelled.
\<close>

datatype event = Get ustr | Sleep real | Write string

text \<open>
  \<open>files\<close> maps a path to the file there; a path in \<open>locked\<close> cannot be opened for
  writing. \<open>net n url\<close> is what the remote site answers to the request number \<open>n\<close>
  of the run when it asks for \<open>url\<close>: the parsed page, or \<open>None\<close> when
  \<open>requests.get\<close> or \<open>raise_for_status\<close> raises a RequestException.
  \<open>reread rows\<close> is what \<open>pd.read_excel\<close>, called with its default arguments,
  returns for a spreadsheet that holds \<open>rows\<close>: pandas guesses the type of every
  column and takes some texts for missing values, so a row can come back with
  other cells than were written (\<open>6.50\<close> as \<open>6.5\<close>, \<open>N/A\<close> as an empty cell).
  What pandas guesses is not the program's own, so it is a part of the world.
\<close>

record world =
  files :: "string \<Rightarrow> contents option"
  locked :: "string set"
  net :: "nat \<Rightarrow> ustr \<Rightarrow> node option"
  reread :: "ipo_data list \<Rightarrow> ipo_data list"
  requests :: nat
  trace :: "event list"

definition http_get :: "ustr \<Rightarrow> world \<Rightarrow> node option \<times> world" where
  "http_get url w =
     (net w (requests w) url,
      w\<lparr>requests := Suc (requests w), trace := trace w @ [Get url]\<rparr>)"

definition sleep :: "real \<Rightarrow> world \<Rightarrow> world" where
  "sleep d w = w\<lparr>trace := trace w @ [Sleep d]\<rparr>"

text \<open>
  \<open>time.random()\<close>: the module \<open>time\<close> of the standard library, which the program
  imports, has no attribute \<open>random\<close>, so the call raises AttributeError.
\<close>

definition time_random :: "error + real" where
  "time_random = Inl AttributeError"

section \<open>The fetcher: \<open>_make_request\<close>\<close>

definition max_retries :: nat where
  "max_retries = 3"

text \<open>
  The loop \<open>for attempt in range(max_retries)\<close>. A RequestException is caught and
  logged; the lines after the \<open>try\<close> block are outside it, so an exception there
  leaves the function.
\<close>

fun attempts :: "ustr \<Rightarrow> nat list \<Rightarrow> world \<Rightarrow> (error + node option) \<times> world" where
  "attempts url [] w = (Inr None, w)"
| "attempts url (attempt # rest) w =
     (case http_get url w of
        (Some response, w1) \<Rightarrow> (Inr (Some response), w1)
      | (None, w1) \<Rightarrow>
          if attempt < max_retries - 1
          then (case time_random of
                  Inl e \<Rightarrow> (Inl e, w1)
                | Inr r \<Rightarrow> attempts url rest (sleep (2 ^ attempt + r * 0.1) w1))
          else attempts url rest w1)"

definition make_request :: "ustr \<Rightarrow> world \<Rightarrow> (error + node option) \<times> world" where
  "make_request url w = attempts url [0..<max_retries] w"

section \<open>The stores\<close>

text \<open>The object, once \<open>__init__\<close> has run.\<close>

record scraper =
  base_url :: ustr
  processed_ipos :: "ustr set"
  output_file :: string
  processed_file :: string

text \<open>
  \<open>_load_processed_ipos\<close> reads \<open>self.processed_file\<close>. Its first argument is that
  attribute: \<open>None\<close> when it has not been assigned yet, and then reading it raises
  AttributeError inside the \<open>try\<close> block. Every exception is caught and gives the
  empty set, as a missing file does.
\<close>

definition load_processed_ipos :: "string option \<Rightarrow> world \<Rightarrow> ustr set" where
  "load_processed_ipos attribute w =
     (case attribute of
        None \<Rightarrow> {}
      | Some path \<Rightarrow>
          (case files w path of
             None \<Rightarrow> {}
           | Some (Json xs) \<Rightarrow> set xs
           | Some (Table rows) \<Rightarrow> {}
           | Some Garbage \<Rightarrow> {}))"

text \<open>
  \<open>__init__\<close> assigns \<open>base_url\<close> and \<open>headers\<close>, then calls
  \<open>_load_processed_ipos\<close>, and only then assigns \<open>output_file\<close> and
  \<open>processed_file\<close>.
\<close>

definition IPOScraper :: "ustr \<Rightarrow> world \<Rightarrow> scraper" where
  "IPOScraper base w =
     \<lparr> base_url = base,
       processed_ipos = load_processed_ipos None w,
       output_file = ''ipo_data.xlsx'',
       processed_file = ''processed_ipos.json'' \<rparr>"

text \<open>
  \<open>_save_processed_ipos\<close>: \<open>list(s)\<close> lists a set in an order Python does not fix;
  the model lists it in increasing order. A failure to open the file is caught.
\<close>

definition save_processed_ipos :: "scraper \<Rightarrow> world \<Rightarrow> world" where
  "save_processed_ipos self w =
     (if processed_file self \<in> locked w then w
      else w\<lparr>files := (files w)(processed_file self \<mapsto>
                  Json (sorted_list_of_set (processed_ipos self))),
             trace := trace w @ [Write (processed_file self)]\<rparr>)"

text \<open>\<open>pd.read_excel\<close> of a file that exists, and \<open>DataFrame.to_excel\<close>.\<close>

definition read_excel :: "string \<Rightarrow> world \<Rightarrow> error + ipo_data list" where
  "read_excel path w =
     (case files w path of
        Some (Table rows) \<Rightarrow> Inr (reread w rows)
      | _ \<Rightarrow> Inl ValueError)"

definition to_excel :: "string \<Rightarrow> ipo_data list \<Rightarrow> world \<Rightarrow> error + world" where
  "to_excel path rows w =
     (if path \<in> locked w then Inl OSError
      else Inr (w\<lparr>files := (files w)(path \<mapsto> Table rows),
                  trace := trace w @ [Write path]\<rparr>))"

section \<open>The orchestrator: \<open>scrape_ipo_data\<close>\<close>

text \<open>\<open>str(n)\<close> for an integer, as the page number is written into the address.\<close>

fun str_nat :: "nat \<Rightarrow> ustr" where
  "str_nat n = (if n < 10 then [48 + n] else str_nat (n div 10) @ [48 + n mod 10])"

declare str_nat.simps [simp del]

definition str_int :: "int \<Rightarrow> ustr" where
  "str_int i = (if i < 0 then 45 # str_nat (nat (- i)) else str_nat (nat i))"

text \<open>
  The loop over the rows of one table. The state is the list \<open>all_ipo_data\<close> and
  the set \<open>self.processed_ipos\<close>. The result of \<open>_extract_ipo_data\<close> is unpacked
  into two names, which raises TypeError when the result is \<open>None\<close>.
\<close>

fun process_rows ::
  "ustr \<Rightarrow> node list \<Rightarrow> ipo_data list \<times> ustr set \<Rightarrow> error + ipo_data list \<times> ustr set" where
  "process_rows base [] state = Inr state"
| "process_rows base (row # rows) (all_ipo_data, processed) =
     and_then (extract_ipo_data base row) (\<lambda>result.
       case result of
         None \<Rightarrow> Inl TypeError
       | Some (ipo_id, ipo_data) \<Rightarrow>
           if ipo_id \<in> processed
           then process_rows base rows (all_ipo_data, processed)
           else process_rows base rows (all_ipo_data @ [ipo_data], insert ipo_id processed))"

text \<open>
  The loop over the pages. A page that could not be fetched and a page without
  the data table are passed over (\<open>continue\<close>); \<open>table.find('tbody')\<close> is \<open>None\<close>
  for a table without body, and calling \<open>find_all\<close> on it raises AttributeError.
\<close>

fun process_pages ::
  "ustr \<Rightarrow> ustr \<Rightarrow> int list \<Rightarrow> ipo_data list \<times> ustr set \<Rightarrow> world
     \<Rightarrow> (error + ipo_data list \<times> ustr set) \<times> world" where
  "process_pages base url [] state w = (Inr state, w)"
| "process_pages base url (page # pages) state w =
     (case make_request (url @ ascii ''?page='' @ str_int page) w of
        (Inl e, w1) \<Rightarrow> (Inl e, w1)
      | (Inr None, w1) \<Rightarrow> process_pages base url pages state w1
      | (Inr (Some soup), w1) \<Rightarrow>
          (case find_class ''table'' ''data-table'' soup of
             None \<Rightarrow> process_pages base url pages state w1
           | Some table \<Rightarrow>
               (case find_tag ''tbody'' table of
                  None \<Rightarrow> (Inl AttributeError, w1)
                | Some tbody \<Rightarrow>
                    (case process_rows base (find_all ''tr'' tbody) state of
                       Inl e \<Rightarrow> (Inl e, w1)
                     | Inr state' \<Rightarrow> process_pages base url pages state' (sleep 2 w1)))))"

text \<open>
  The last block of \<open>scrape_ipo_data\<close>: with new records, the table is read if its
  file exists, the new records are put after its rows, the table is written and
  then the set of identifiers; without new records nothing is written. An
  exception of \<open>read_excel\<close> or \<open>to_excel\<close> is not caught.
\<close>

definition save_data :: "scraper \<Rightarrow> ipo_data list \<Rightarrow> world \<Rightarrow> error + world" where
  "save_data self all_ipo_data w =
     (if all_ipo_data \<noteq> []
      then and_then
             (if files w (output_file self) \<noteq> None
              then and_then (read_excel (output_file self) w) (\<lambda>existing_df.
                   Inr (existing_df @ all_ipo_data))
              else Inr all_ipo_data) (\<lambda>final_df.
           and_then (to_excel (output_file self) final_df w) (\<lambda>w1.
           Inr (save_processed_ipos self w1)))
      else Inr w)"

text \<open>
  A run returns nothing in Python. The model returns the records the run has
  accumulated and the object as the run leaves it, or the exception that ended
  the run, together with the world after the run.
\<close>

definition scrape_ipo_data ::
  "(ustr \<Rightarrow> int option) \<Rightarrow> scraper \<Rightarrow> world \<Rightarrow> (error + ipo_data list \<times> scraper) \<times> world" where
  "scrape_ipo_data int_of self w =
     (let url = base_url self @ ascii ''/ipo/recent/'' in
      case make_request url w of
        (Inl e, w1) \<Rightarrow> (Inl e, w1)
      | (Inr None, w1) \<Rightarrow> (Inr ([], self), w1)
      | (Inr (Some soup), w1) \<Rightarrow>
          (case extract_pagination_info int_of soup of
             Inl e \<Rightarrow> (Inl e, w1)
           | Inr total_pages \<Rightarrow>
               (case process_pages (base_url self) url [1..total_pages]
                       ([], processed_ipos self) w1 of
                  (Inl e, w2) \<Rightarrow> (Inl e, w2)
                | (Inr (all_ipo_data, processed), w2) \<Rightarrow>
                    (let self' = self\<lparr>processed_ipos := processed\<rparr> in
                     case save_data self' all_ipo_data w2 of
                       Inl e \<Rightarrow> (Inl e, w2)
                     | Inr w3 \<Rightarrow> (Inr (all_ipo_data, self'), w3)))))"

definition main :: "(ustr \<Rightarrow> int option) \<Rightarrow> world \<Rightarrow> (error + ipo_data list \<times> scraper) \<times> world" where
  "main int_of w = scrape_ipo_data int_of (IPOScraper (ascii ''https://www.screener.in'') w) w"

section \<open>Notions of the specification\<close>

text \<open>
  The record identifier of a listing, as the data model describes it: the company
  name and the listing date, joined by an underscore.
\<close>

definition record_id :: "ipo_data \<Rightarrow> ustr" where
  "record_id d = Company d @ ascii ''_'' @ Listing_Date d"

text \<open>
  The page number a link of the pagination control carries: the text that follows
  the first \<open>page=\<close> of its address (up to the next \<open>page=\<close>, if there is one),
  read as an integer. A link without address, or whose address has no \<open>page=\<close>
  or no integer after it, carries none.
\<close>

definition page_number :: "(ustr \<Rightarrow> int option) \<Rightarrow> node \<Rightarrow> int option" where
  "page_number int_of link =
     (case attr link ''href'' of
        None \<Rightarrow> None
      | Some href \<Rightarrow>
          if contains (ascii ''page='') href
          then int_of (split (ascii ''page='') href ! 1) else None)"

definition page_numbers :: "(ustr \<Rightarrow> int option) \<Rightarrow> node list \<Rightarrow> int list" where
  "page_numbers int_of links = List.map_filter (page_number int_of) links"

text \<open>The rows of the output table at a path: none when there is no table there.\<close>

definition rows_of :: "world \<Rightarrow> string \<Rightarrow> ipo_data list" where
  "rows_of w path = (case files w path of Some (Table rows) \<Rightarrow> rows | _ \<Rightarrow> [])"

text \<open>
  The rows of the output table at a path as \<open>pd.read_excel\<close> reads them back: none
  when there is no table there.
\<close>

definition read_back :: "world \<Rightarrow> string \<Rightarrow> ipo_data list" where
  "read_back w path =
     (case files w path of Some (Table rows) \<Rightarrow> reread w rows | _ \<Rightarrow> [])"

text \<open>The paths a trace writes, in the order of the writes.\<close>

fun writes :: "event list \<Rightarrow> string list" where
  "writes [] = []"
| "writes (Write path # tr) = path # writes tr"
| "writes (Get url # tr) = writes tr"
| "writes (Sleep d # tr) = writes tr"

section \<open>Example pages\<close>

text \<open>
  Pages of the shape the site serves: an optional pagination control
  \<open>div.pagination\<close> with links \<open>?page=n\<close>, and a table \<open>table.data-table\<close> whose
  body has one row of six cells for each listing, the first cell holding the link
  to the company.
\<close>

definition text_cell :: "ustr \<Rightarrow> node" where
  "text_cell t = Elem ''td'' [] [Text t]"

definition link_cell :: "string \<Rightarrow> string \<Rightarrow> node" where
  "link_cell href name =
     Elem ''td'' [] [Elem ''a'' [(''href'', ascii href)] [Text (ascii name)]]"

definition listing_row :: "string \<Rightarrow> string \<Rightarrow> ustr \<Rightarrow> ustr \<Rightarrow> node" where
  "listing_row name date price change =
     Elem ''tr'' []
       [link_cell (''/company/'' @ name @ ''/'') name,
        text_cell (ascii date),
        text_cell (ascii ''1,500''),
        text_cell price,
        text_cell (rupee # ascii ''99.5''),
        text_cell change]"

definition acme_row :: node where
  "acme_row = listing_row ''Acme'' ''1 Jan 2024'' (rupee # ascii ''1,234'')
     (arrow_down # ascii ''12.5%'')"

definition bolt_row :: node where
  "bolt_row = listing_row ''Bolt'' ''2 Feb 2024'' (rupee # ascii ''80'')
     (arrow_up # ascii ''8.0%'')"

definition page_link :: "string \<Rightarrow> node" where
  "page_link n = Elem ''a'' [(''href'', ascii (''?page='' @ n))] [Text (ascii n)]"

definition pagination :: "node list \<Rightarrow> node" where
  "pagination links = Elem ''div'' [(''class'', ascii ''pagination'')] links"

definition data_table :: "node list \<Rightarrow> node" where
  "data_table rows =
     Elem ''table'' [(''class'', ascii ''data-table text-nowrap'')] [Elem ''tbody'' [] rows]"

definition document :: "node list \<Rightarrow> node" where
  "document nodes = Elem ''[document]'' [] nodes"

definition plain_row :: node where
  "plain_row =
     Elem ''tr'' []
       [text_cell (ascii ''Total''), text_cell [], text_cell [], text_cell [],
        text_cell [], text_cell []]"

definition short_row :: node where
  "short_row = Elem ''tr'' [] [link_cell ''/company/Acme/'' ''Acme'']"

definition five_cell_row :: node where
  "five_cell_row =
     Elem ''tr'' []
       [link_cell ''/company/Acme/'' ''Acme'', text_cell (ascii ''1 Jan 2024''),
        text_cell (ascii ''1,500''), text_cell (rupee # ascii ''1,234''),
        text_cell (rupee # ascii ''99.5'')]"

definition nada_row :: node where
  "nada_row =
     Elem ''tr'' []
       [link_cell ''/company/Nada/'' ''Nada'', text_cell (ascii ''4 Apr 2024''),
        text_cell (ascii ''N/A''), text_cell (rupee # ascii ''1,234''),
        text_cell (rupee # ascii ''99.5''), text_cell (arrow_up # ascii ''8.0%'')]"

definition two_pages :: node where
  "two_pages = document [pagination [page_link ''2''], data_table [acme_row, bolt_row, acme_row]]"

definition old_record :: ipo_data where
  "old_record =
     \<lparr> Company = ascii ''Old'', Company_Link = ascii ''https://www.screener.in/company/Old/'',
       Listing_Date = ascii ''3 Mar 2023'', IPO_MCap = ascii ''10'', IPO_Price = ascii ''5'',
       Current_Price = ascii ''6'', Percent_Change = ascii ''+20%'' \<rparr>"

text \<open>
  How the tables of the examples are read back: a cell that holds \<open>N/A\<close> comes
  back empty, every other cell with the text it had. This is what \<open>pd.read_excel\<close>
  does to the cells of the example tables, whose numbers are written the way
  pandas shows them; what it does to other cells is not said here.
\<close>

definition reread_cell :: "ustr \<Rightarrow> ustr" where
  "reread_cell t = (if t = ascii ''N/A'' then [] else t)"

definition reread_row :: "ipo_data \<Rightarrow> ipo_data" where
  "reread_row d =
     \<lparr> Company = reread_cell (Company d),
       Company_Link = reread_cell (Company_Link d),
       Listing_Date = reread_cell (Listing_Date d),
       IPO_MCap = reread_cell (IPO_MCap d),
       IPO_Price = reread_cell (IPO_Price d),
       Current_Price = reread_cell (Current_Price d),
       Percent_Change = reread_cell (Percent_Change d) \<rparr>"

text \<open>
  A world with nothing on disk in which the site answers every request with the
  same page, and the same world with a table of one row on disk.
\<close>

definition site :: "node \<Rightarrow> world" where
  "site soup =
     \<lparr> files = Map.empty, locked = {}, net = (\<lambda>n url. Some soup),
       reread = map reread_row, requests = 0, trace = [] \<rparr>"

definition site_with_table :: "node \<Rightarrow> world" where
  "site_with_table soup =
     \<lparr> files = [''ipo_data.xlsx'' \<mapsto> Table [old_record]], locked = {},
       net = (\<lambda>n url. Some soup), reread = map reread_row, requests = 0, trace = [] \<rparr>"

text \<open>An object whose set already holds the identifier of the row of Acme.\<close>

definition returning_scraper :: scraper where
  "returning_scraper =
     \<lparr> base_url = ascii ''https://www.screener.in'',
       processed_ipos = {ascii ''Acme_1 Jan 2024''},
       output_file = ''ipo_data.xlsx'',
       processed_file = ''processed_ipos.json'' \<rparr>"

section \<open>The state of the loops\<close>

text \<open>
  How the pair of \<open>all_ipo_data\<close> and \<open>self.processed_ipos\<close> changes while rows are
  processed: records are appended whose identifiers are pairwise distinct and not
  in the set before, and exactly these identifiers are added to the set.
\<close>

definition grows :: "ipo_data list \<times> ustr set \<Rightarrow> ipo_data list \<times> ustr set \<Rightarrow> bool" where
  "grows s s' \<longleftrightarrow>
     (\<exists>new. fst s' = fst s @ new \<and> distinct (map record_id new)
        \<and> set (map record_id new) \<inter> snd s = {}
        \<and> snd s' = snd s \<union> set (map record_id new))"

section \<open>Text\<close>

lemma and_then_Inl [simp]: "and_then (Inl e) f = Inl e"
  by (simp add: and_then_def)

lemma and_then_Inr [simp]: "and_then (Inr x) f = f x"
  by (simp add: and_then_def)

lemma split_from_not_Nil: "split_from sep cur s \<noteq> []"
  by (induction sep cur s rule: split_from.induct) auto

lemma join_Cons: "ps \<noteq> [] \<Longrightarrow> join new (p # ps) = p @ new @ join new ps"
  by (cases ps) auto

lemma join_split_from_char:
  "join new (split_from [c] cur s) = cur @ concat (map (\<lambda>x. if x = c then new else [x]) s)"
proof (induction s arbitrary: cur)
  case Nil
  show ?case by simp
next
  case (Cons x xs)
  show ?case
  proof (cases "x = c")
    case True
    then show ?thesis
      using Cons.IH [of "[]"] by (simp add: join_Cons split_from_not_Nil)
  next
    case False
    then show ?thesis
      using Cons.IH [of "cur @ [x]"] by simp
  qed
qed

text \<open>Replacing a single character: what \<open>replace\<close> does in this program.\<close>

lemma replace_char: "replace [c] new s = concat (map (\<lambda>x. if x = c then new else [x]) s)"
  by (simp add: replace_def split_def join_split_from_char)

lemma remove_char: "replace [c] [] s = filter (\<lambda>x. x \<noteq> c) s"
  by (induction s) (simp_all add: replace_char)

lemma replace_char_char: "replace [c] [d] s = map (\<lambda>x. if x = c then d else x) s"
  by (induction s) (simp_all add: replace_char)

lemma split_from_two:
  "contains sep s \<Longrightarrow> sep \<noteq> [] \<Longrightarrow> 2 \<le> length (split_from sep cur s)"
proof (induction s arbitrary: cur)
  case Nil
  then show ?case by simp
next
  case (Cons c cs)
  show ?case
  proof (cases "prefix sep (c # cs)")
    case True
    have "split_from sep [] (drop (length sep) (c # cs)) \<noteq> []"
      by (rule split_from_not_Nil)
    then have "1 \<le> length (split_from sep [] (drop (length sep) (c # cs)))"
      by (simp add: Suc_le_eq)
    with True Cons.prems show ?thesis by simp
  next
    case False
    with Cons.prems have "contains sep cs" by simp
    from Cons.IH [OF this Cons.prems(2)] False show ?thesis by simp
  qed
qed

text \<open>Where \<open>page=\<close> occurs in an address, the second piece of the split exists.\<close>

lemma index_split:
  "contains (ascii ''page='') href \<Longrightarrow>
   index (split (ascii ''page='') href) (Suc 0) = Inr (split (ascii ''page='') href ! Suc 0)"
  using split_from_two [of "ascii ''page=''" href "[]"]
  by (simp add: index_def split_def ascii_def)

text \<open>Facts that evaluate the model on the example pages.\<close>

lemmas text_eval = ascii_def strip_def isspace_def rupee_def arrow_up_def arrow_down_def
  split_def replace_def

lemmas int_eval = int_ascii_def unsigned_ascii_def digit_of_def

lemmas page_eval = find_all_def find_tag_def find_class_def has_class_def index_def
  getitem_def

lemmas example_eval = text_cell_def link_cell_def listing_row_def acme_row_def bolt_row_def
  page_link_def pagination_def data_table_def document_def plain_row_def short_row_def five_cell_row_def
  two_pages_def old_record_def site_def site_with_table_def returning_scraper_def
  nada_row_def reread_cell_def reread_row_def

section \<open>The page parser\<close>

subsection \<open>The page count\<close>

lemma scan_links_fold:
  "scan_links int_of links m = Inr (fold max (page_numbers int_of links) m)"
proof (induction links arbitrary: m)
  case Nil
  show ?case by (simp add: page_numbers_def map_filter_simps)
next
  case (Cons link links)
  show ?case
  proof (cases "attr link ''href''")
    case None
    then show ?thesis
      using Cons.IH [of m]
      by (simp add: page_numbers_def map_filter_simps page_number_def ascii_def)
  next
    case (Some href)
    show ?thesis
    proof (cases "contains (ascii ''page='') href")
      case False
      with Some show ?thesis
        using Cons.IH [of m]
        by (simp add: page_numbers_def map_filter_simps page_number_def)
    next
      case True
      show ?thesis
      proof (cases "int_of (split (ascii ''page='') href ! 1)")
        case None
        with Some True show ?thesis
          using Cons.IH [of m]
          by (simp add: page_numbers_def map_filter_simps page_number_def getitem_def index_split)
      next
        case (Some k)
        with \<open>attr link ''href'' = Some href\<close> True show ?thesis
          using Cons.IH [of "max m k"]
          by (simp add: page_numbers_def map_filter_simps page_number_def getitem_def
              index_split max.commute)
      qed
    qed
  qed
qed

lemma fold_max_Max: "fold max xs (m::int) = Max (insert m (set xs))"
  using Max.set_eq_fold [of m xs] by simp

text \<open>
  C5. \<open>_extract_pagination_info\<close> never raises and returns an integer that is at
  least 1: 1 when the page has no pagination control, and otherwise the greatest
  of 1 and the page numbers that the links of the control carry (so 1 when no
  link carries one).
\<close>

theorem extract_pagination_info_max:
  "\<exists>n. extract_pagination_info int_of soup = Inr n \<and> 1 \<le> n \<and>
     (case find_class ''div'' ''pagination'' soup of
        None \<Rightarrow> n = 1
      | Some control \<Rightarrow>
          n = Max (insert 1 (set (page_numbers int_of (find_all ''a'' control)))))"
proof (cases "find_class ''div'' ''pagination'' soup")
  case None
  then show ?thesis by (simp add: extract_pagination_info_def)
next
  case (Some control)
  let ?S = "set (page_numbers int_of (find_all ''a'' control))"
  have "1 \<le> Max (insert 1 ?S)" by simp
  with Some show ?thesis
    by (simp add: extract_pagination_info_def scan_links_fold fold_max_Max)
qed

text \<open>
  A control with links to the pages 1, 3 and 5 gives 5, and a page without
  control gives 1.
\<close>

theorem extract_pagination_info_max_witness:
  "find_class ''div'' ''pagination''
      (document [pagination [page_link ''1'', page_link ''3'', page_link ''5'']]) \<noteq> None
   \<and> page_numbers int_ascii [page_link ''1'', page_link ''3'', page_link ''5''] = [1, 3, 5]
   \<and> extract_pagination_info int_ascii
        (document [pagination [page_link ''1'', page_link ''3'', page_link ''5'']]) = Inr 5
   \<and> find_class ''div'' ''pagination'' (document [data_table []]) = None
   \<and> extract_pagination_info int_ascii (document [data_table []]) = Inr 1"
proof -
  let ?links = "[page_link ''1'', page_link ''3'', page_link ''5'']"
  let ?soup = "document [pagination ?links]"
  have control: "find_class ''div'' ''pagination'' ?soup = Some (pagination ?links)"
    by (simp add: page_eval example_eval text_eval)
  have links: "find_all ''a'' (pagination ?links) = ?links"
    by (simp add: page_eval example_eval)
  have numbers: "page_numbers int_ascii ?links = [1, 3, 5]"
    by (simp add: page_numbers_def map_filter_simps page_number_def example_eval text_eval
        int_eval)
  have none: "find_class ''div'' ''pagination'' (document [data_table []]) = None"
    by (simp add: page_eval example_eval text_eval)
  from extract_pagination_info_max [of int_ascii ?soup]
  have five: "extract_pagination_info int_ascii ?soup = Inr 5"
    by (auto simp add: control links numbers)
  from extract_pagination_info_max [of int_ascii "document [data_table []]"]
  have one: "extract_pagination_info int_ascii (document [data_table []]) = Inr 1"
    by (auto simp add: none)
  from control numbers five none one show ?thesis by simp
qed

subsection \<open>The rows\<close>

text \<open>
  C4. A row with at least six cells whose first cell holds a link, that is an
  \<open>a\<close> tag with an address: \<open>_extract_ipo_data\<close> returns the identifier and the
  record. The company name is the text of the link and the listing date the text
  of the second cell, both without the whitespace around them; the identifier is
  the company name, an underscore and the listing date. The two prices are the
  texts of their cells with every rupee sign taken out and then the whitespace
  around them; the percent change is the text of its cell without the whitespace
  around it, every downward arrow replaced by \<open>-\<close> (45) and every upward arrow
  by \<open>+\<close> (43).
\<close>

theorem extract_ipo_data_fields:
  assumes "cells = find_all ''td'' row" and "6 \<le> length cells"
    and "find_tag ''a'' (cells ! 0) = Some link" and "attr link ''href'' = Some href"
  shows "\<exists>ipo_id d. extract_ipo_data base row = Inr (Some (ipo_id, d))
     \<and> Company d = strip (get_text link)
     \<and> Listing_Date d = strip (get_text (cells ! 1))
     \<and> ipo_id = Company d @ ascii ''_'' @ Listing_Date d
     \<and> IPO_Price d = strip (filter (\<lambda>c. c \<noteq> rupee) (get_text (cells ! 3)))
     \<and> Current_Price d = strip (filter (\<lambda>c. c \<noteq> rupee) (get_text (cells ! 4)))
     \<and> Percent_Change d =
           map (\<lambda>c. if c = arrow_down then 45 else if c = arrow_up then 43 else c)
             (strip (get_text (cells ! 5)))"
proof -
  have ne: "find_all ''td'' row \<noteq> []" using assms(1,2) by auto
  have pc: "replace [arrow_up] (ascii ''+'') (replace [arrow_down] (ascii ''-'') t) =
      map (\<lambda>c. if c = arrow_down then 45 else if c = arrow_up then 43 else c) t" for t
    by (simp add: ascii_def replace_char_char arrow_up_def arrow_down_def)
  show ?thesis
    using assms ne
    by (simp add: extract_ipo_data_def Let_def index_def getitem_def remove_char pc)
qed

text \<open>
  The row of Acme: the price cell holds the rupee sign and \<open>1,234\<close>, the change
  cell the downward arrow and \<open>12.5%\<close>. In the row of Bolt the change cell holds
  the upward arrow and \<open>8.0%\<close>.
\<close>

theorem extract_ipo_data_fields_witness:
  "6 \<le> length (find_all ''td'' acme_row)
   \<and> find_tag ''a'' (find_all ''td'' acme_row ! 0)
       = Some (Elem ''a'' [(''href'', ascii ''/company/Acme/'')] [Text (ascii ''Acme'')])
   \<and> (\<exists>d. extract_ipo_data (ascii ''https://www.screener.in'') acme_row
             = Inr (Some (ascii ''Acme_1 Jan 2024'', d))
         \<and> Company d = ascii ''Acme''
         \<and> Listing_Date d = ascii ''1 Jan 2024''
         \<and> IPO_Price d = ascii ''1,234''
         \<and> Current_Price d = ascii ''99.5''
         \<and> Percent_Change d = ascii ''-12.5%'')
   \<and> (\<exists>d. extract_ipo_data (ascii ''https://www.screener.in'') bolt_row
             = Inr (Some (ascii ''Bolt_2 Feb 2024'', d))
         \<and> IPO_Price d = ascii ''80''
         \<and> Percent_Change d = ascii ''+8.0%'')"
proof -
  let ?link = "Elem ''a'' [(''href'', ascii ''/company/Acme/'')] [Text (ascii ''Acme'')]"
  have cells: "find_all ''td'' acme_row =
      [link_cell ''/company/Acme/'' ''Acme'', text_cell (ascii ''1 Jan 2024''),
       text_cell (ascii ''1,500''), text_cell (rupee # ascii ''1,234''),
       text_cell (rupee # ascii ''99.5''), text_cell (arrow_down # ascii ''12.5%'')]"
    by (simp add: page_eval example_eval)
  have six: "6 \<le> length (find_all ''td'' acme_row)"
    by (simp add: cells)
  have link: "find_tag ''a'' (find_all ''td'' acme_row ! 0) = Some ?link"
    by (simp add: cells) (simp add: page_eval example_eval)
  have href: "attr ?link ''href'' = Some (ascii ''/company/Acme/'')"
    by simp
  from extract_ipo_data_fields [OF refl six link href, of "ascii ''https://www.screener.in''"]
  obtain ipo_id d where
    "extract_ipo_data (ascii ''https://www.screener.in'') acme_row = Inr (Some (ipo_id, d))"
    "Company d = strip (get_text ?link)"
    "Listing_Date d = strip (get_text (find_all ''td'' acme_row ! 1))"
    "ipo_id = Company d @ ascii ''_'' @ Listing_Date d"
    "IPO_Price d = strip (filter (\<lambda>c. c \<noteq> rupee) (get_text (find_all ''td'' acme_row ! 3)))"
    "Current_Price d = strip (filter (\<lambda>c. c \<noteq> rupee) (get_text (find_all ''td'' acme_row ! 4)))"
    "Percent_Change d =
       map (\<lambda>c. if c = arrow_down then 45 else if c = arrow_up then 43 else c)
         (strip (get_text (find_all ''td'' acme_row ! 5)))"
    by blast
  then have "extract_ipo_data (ascii ''https://www.screener.in'') acme_row
             = Inr (Some (ascii ''Acme_1 Jan 2024'', d))
         \<and> Company d = ascii ''Acme''
         \<and> Listing_Date d = ascii ''1 Jan 2024''
         \<and> IPO_Price d = ascii ''1,234''
         \<and> Current_Price d = ascii ''99.5''
         \<and> Percent_Change d = ascii ''-12.5%''"
    by (simp add: cells) (simp add: text_eval example_eval)
  moreover have "\<exists>d. extract_ipo_data (ascii ''https://www.screener.in'') bolt_row
             = Inr (Some (ascii ''Bolt_2 Feb 2024'', d))
         \<and> IPO_Price d = ascii ''80''
         \<and> Percent_Change d = ascii ''+8.0%''"
    by (simp add: extract_ipo_data_def page_eval example_eval text_eval)
  ultimately show ?thesis using six link by blast
qed

section \<open>The fetcher\<close>

text \<open>
  Every call of \<open>_make_request\<close> sends one request. When the request fails, the
  first pass of the loop reaches \<open>time.random()\<close>, which raises.
\<close>

lemma make_request_once:
  "make_request url w =
     (case net w (requests w) url of
        None \<Rightarrow> Inl AttributeError
      | Some response \<Rightarrow> Inr (Some response),
      w\<lparr>requests := Suc (requests w), trace := trace w @ [Get url]\<rparr>)"
  by (simp add: make_request_def max_retries_def http_get_def time_random_def upt_conv_Cons
      split: option.split)

text \<open>
  C3. In a world whose site fails every request, \<open>_make_request\<close> sends a single
  request, makes no pause and ends with AttributeError: it neither tries three
  times nor returns \<open>None\<close> to its caller.
\<close>

theorem make_request_raises_on_failure:
  "make_request url (w\<lparr>net := \<lambda>n u. None\<rparr>) =
     (Inl AttributeError,
      w\<lparr>net := \<lambda>n u. None, requests := Suc (requests w), trace := trace w @ [Get url]\<rparr>)"
  by (simp add: make_request_def max_retries_def http_get_def time_random_def upt_conv_Cons)

section \<open>The loops\<close>

lemma extract_ipo_data_id:
  "extract_ipo_data base row = Inr (Some (ipo_id, d)) \<Longrightarrow> ipo_id = record_id d"
  by (auto simp add: extract_ipo_data_def Let_def and_then_def index_def getitem_def
      record_id_def split: if_splits option.splits sum.splits)

lemma process_rows_step:
  "process_rows base (row # rows) (acc, seen) =
     (case extract_ipo_data base row of
        Inl e \<Rightarrow> Inl e
      | Inr None \<Rightarrow> Inl TypeError
      | Inr (Some (ipo_id, d)) \<Rightarrow>
          process_rows base rows
            (if ipo_id \<in> seen then (acc, seen) else (acc @ [d], insert ipo_id seen)))"
  by (simp split: sum.split option.split)

lemma grows_refl: "grows s s"
  by (simp add: grows_def)

lemma grows_trans: "grows s t \<Longrightarrow> grows t u \<Longrightarrow> grows s u"
proof -
  assume "grows s t" and "grows t u"
  then obtain m n where
    m: "fst t = fst s @ m" "distinct (map record_id m)" "set (map record_id m) \<inter> snd s = {}"
      "snd t = snd s \<union> set (map record_id m)" and
    n: "fst u = fst t @ n" "distinct (map record_id n)" "set (map record_id n) \<inter> snd t = {}"
      "snd u = snd t \<union> set (map record_id n)"
    unfolding grows_def by blast
  have "fst u = fst s @ (m @ n)" using m(1) n(1) by simp
  moreover have "distinct (map record_id (m @ n))" using m(2,4) n(2,3) by auto
  moreover have "set (map record_id (m @ n)) \<inter> snd s = {}" using m(3,4) n(3) by auto
  moreover have "snd u = snd s \<union> set (map record_id (m @ n))" using m(4) n(4) by auto
  ultimately show "grows s u" unfolding grows_def by blast
qed

lemma grows_add:
  "record_id d \<notin> seen \<Longrightarrow> grows (acc, seen) (acc @ [d], insert (record_id d) seen)"
  unfolding grows_def by (rule exI [of _ "[d]"]) simp

lemma process_rows_grows:
  "process_rows base rows s = Inr s' \<Longrightarrow> grows s s'"
proof (induction rows arbitrary: s)
  case Nil
  then show ?case by (simp add: grows_refl)
next
  case (Cons row rows)
  obtain acc seen where s: "s = (acc, seen)" by (cases s)
  from Cons.prems obtain ipo_id d where
    ex: "extract_ipo_data base row = Inr (Some (ipo_id, d))"
    unfolding s process_rows_step by (auto split: sum.splits option.splits)
  then have id: "ipo_id = record_id d" by (rule extract_ipo_data_id)
  show ?case
  proof (cases "ipo_id \<in> seen")
    case True
    with Cons.prems ex have "process_rows base rows s = Inr s'"
      unfolding s process_rows_step by simp
    then show ?thesis by (rule Cons.IH)
  next
    case False
    with Cons.prems ex
    have "process_rows base rows (acc @ [d], insert ipo_id seen) = Inr s'"
      unfolding s process_rows_step by simp
    then have "grows (acc @ [d], insert ipo_id seen) s'" by (rule Cons.IH)
    moreover have "grows s (acc @ [d], insert ipo_id seen)"
      using False unfolding s id by (rule grows_add)
    ultimately show ?thesis by (blast intro: grows_trans)
  qed
qed

lemma writes_append: "writes (a @ b) = writes a @ writes b"
  by (induction a rule: writes.induct) simp_all

text \<open>
  One pass of the loop over the pages, case by case: what is left to do, in which
  world, and with which state.
\<close>

lemma process_pages_cases:
  assumes "process_pages base url (page # pages) s w = (r, w')"
  defines "w1 \<equiv> w\<lparr>requests := Suc (requests w),
                    trace := trace w @ [Get (url @ ascii ''?page='' @ str_int page)]\<rparr>"
  shows "(w' = w1 \<and> (\<exists>e. r = Inl e))
       \<or> process_pages base url pages s w1 = (r, w')
       \<or> (\<exists>s1. grows s s1 \<and> process_pages base url pages s1 (sleep 2 w1) = (r, w'))"
proof -
  let ?u = "url @ ascii ''?page='' @ str_int page"
  show ?thesis
  proof (cases "net w (requests w) ?u")
    case None
    with assms(1) have "(Inl AttributeError, w1) = (r, w')"
      by (simp add: make_request_once w1_def)
    then show ?thesis by auto
  next
    case (Some soup)
    show ?thesis
    proof (cases "find_class ''table'' ''data-table'' soup")
      case None
      with assms(1) Some have "process_pages base url pages s w1 = (r, w')"
        by (simp add: make_request_once w1_def)
      then show ?thesis by simp
    next
      case table: (Some table)
      show ?thesis
      proof (cases "find_tag ''tbody'' table")
        case None
        with assms(1) Some table have "(Inl AttributeError, w1) = (r, w')"
          by (simp add: make_request_once w1_def)
        then show ?thesis by auto
      next
        case tbody: (Some tbody)
        show ?thesis
        proof (cases "process_rows base (find_all ''tr'' tbody) s")
          case (Inl e)
          with assms(1) Some table tbody have "(Inl e, w1) = (r, w')"
            by (simp add: make_request_once w1_def)
          then show ?thesis by auto
        next
          case (Inr s1)
          then have "grows s s1" by (rule process_rows_grows)
          moreover from assms(1) Some table tbody Inr
          have "process_pages base url pages s1 (sleep 2 w1) = (r, w')"
            by (simp add: make_request_once w1_def)
          ultimately show ?thesis by blast
        qed
      qed
    qed
  qed
qed

lemma process_pages_grows:
  "process_pages base url pages s w = (Inr s', w') \<Longrightarrow> grows s s'"
proof (induction pages arbitrary: s w)
  case Nil
  then show ?case by (simp add: grows_refl)
next
  case (Cons page pages)
  from process_pages_cases [OF Cons.prems] show ?case
    by (blast dest: Cons.IH intro: grows_trans)
qed

lemma process_pages_frame:
  "process_pages base url pages s w = (r, w') \<Longrightarrow>
   files w' = files w \<and> locked w' = locked w \<and> reread w' = reread w
   \<and> writes (trace w') = writes (trace w)"
proof (induction pages arbitrary: s w)
  case Nil
  then show ?case by auto
next
  case (Cons page pages)
  let ?w1 = "w\<lparr>requests := Suc (requests w),
                trace := trace w @ [Get (url @ ascii ''?page='' @ str_int page)]\<rparr>"
  have w1: "files ?w1 = files w" "locked ?w1 = locked w" "reread ?w1 = reread w"
    "writes (trace ?w1) = writes (trace w)"
    by (simp_all add: writes_append)
  have w1s: "files (sleep 2 ?w1) = files w" "locked (sleep 2 ?w1) = locked w"
    "reread (sleep 2 ?w1) = reread w" "writes (trace (sleep 2 ?w1)) = writes (trace w)"
    by (simp_all add: writes_append sleep_def)
  from process_pages_cases [OF Cons.prems] show ?case
  proof (elim disjE exE conjE)
    assume "w' = ?w1"
    with w1 show ?thesis by simp
  next
    assume "process_pages base url pages s ?w1 = (r, w')"
    from Cons.IH [OF this] w1 show ?thesis by simp
  next
    fix s1
    assume "process_pages base url pages s1 (sleep 2 ?w1) = (r, w')"
    from Cons.IH [OF this] w1s show ?thesis by simp
  qed
qed

section \<open>A run\<close>

text \<open>
  Saving new records: the table written holds the rows read back from the old
  table, then the new records.
\<close>

lemma save_data_new:
  assumes "save_data self new w = Inr w3" and "new \<noteq> []"
  shows "w3 = save_processed_ipos self
           (w\<lparr>files := (files w)(output_file self \<mapsto> Table (read_back w (output_file self) @ new)),
              trace := trace w @ [Write (output_file self)]\<rparr>)"
  using assms
  by (auto simp add: save_data_def read_excel_def to_excel_def read_back_def and_then_def
      split: if_splits option.splits contents.splits sum.splits)

text \<open>
  A run either writes nothing and has no new records to report, or it has gone
  through the pages without touching the disk, holds new records whose identifiers
  are distinct and were not in the set, and has saved them.
\<close>

lemma scrape_cases:
  assumes "scrape_ipo_data int_of self w = (result, w')"
  shows "(files w' = files w \<and> writes (trace w') = writes (trace w)
            \<and> (\<forall>new self'. result = Inr (new, self') \<longrightarrow> new = [] \<and> self' = self))
       \<or> (files w' = files w \<and> writes (trace w') = writes (trace w)
            \<and> (\<exists>self'. result = Inr ([], self')
                  \<and> grows ([], processed_ipos self) ([], processed_ipos self')))
       \<or> (\<exists>new self' w2. result = Inr (new, self') \<and> new \<noteq> []
            \<and> grows ([], processed_ipos self) (new, processed_ipos self')
            \<and> files w2 = files w \<and> locked w2 = locked w \<and> reread w2 = reread w
            \<and> writes (trace w2) = writes (trace w)
            \<and> output_file self' = output_file self
            \<and> processed_file self' = processed_file self
            \<and> save_data self' new w2 = Inr w')"
proof -
  let ?url = "base_url self @ ascii ''/ipo/recent/''"
  let ?w1 = "w\<lparr>requests := Suc (requests w), trace := trace w @ [Get ?url]\<rparr>"
  have w1: "files ?w1 = files w" "locked ?w1 = locked w" "reread ?w1 = reread w"
    "writes (trace ?w1) = writes (trace w)"
    by (simp_all add: writes_append)
  show ?thesis
  proof (cases "net w (requests w) ?url")
    case None
    with assms w1 show ?thesis
      by (auto simp add: scrape_ipo_data_def make_request_once Let_def)
  next
    case (Some soup)
    show ?thesis
    proof (cases "extract_pagination_info int_of soup")
      case (Inl e)
      with assms Some w1 show ?thesis
        by (auto simp add: scrape_ipo_data_def make_request_once Let_def)
    next
      case (Inr total_pages)
      obtain r w2 where pages:
        "process_pages (base_url self) ?url [1..total_pages] ([], processed_ipos self) ?w1 = (r, w2)"
        by (cases "process_pages (base_url self) ?url [1..total_pages] ([], processed_ipos self) ?w1")
      from process_pages_frame [OF pages] w1
      have w2: "files w2 = files w" "locked w2 = locked w" "reread w2 = reread w"
        "writes (trace w2) = writes (trace w)"
        by simp_all
      show ?thesis
      proof (cases r)
        case (Inl e)
        with assms Some \<open>extract_pagination_info int_of soup = Inr total_pages\<close> pages w2
        show ?thesis
          by (auto simp add: scrape_ipo_data_def make_request_once Let_def)
      next
        case r: (Inr state)
        obtain new processed where state: "state = (new, processed)" by (cases state)
        from pages r state have g: "grows ([], processed_ipos self) (new, processed)"
          by (auto dest: process_pages_grows)
        show ?thesis
        proof (cases "new = []")
          case True
          with assms Some Inr pages w2 r state g show ?thesis
            by (auto simp add: scrape_ipo_data_def make_request_once Let_def save_data_def)
        next
          case False
          with assms Some Inr pages w2 r state g show ?thesis
            by (auto simp add: scrape_ipo_data_def make_request_once Let_def
                split: sum.splits)
        qed
      qed
    qed
  qed
qed

text \<open>Facts that evaluate a run on the example pages.\<close>

lemma str_nat_digit: "n < 10 \<Longrightarrow> str_nat n = [48 + n]"
  by (simp add: str_nat.simps)

lemma upto_one_one: "[1..1::int] = [1]"
  by (simp add: upto_rec1)

lemma upto_one_two: "[1..2::int] = [1, 2]"
  by (simp add: upto_rec1)

lemmas run_eval = main_def scrape_ipo_data_def IPOScraper_def load_processed_ipos_def
  make_request_once extract_pagination_info_def extract_ipo_data_def save_data_def
  read_excel_def to_excel_def save_processed_ipos_def sleep_def str_int_def str_nat_digit
  Let_def rows_of_def read_back_def upto_one_one upto_one_two

text \<open>
  C9. The records a run accumulates have pairwise distinct identifiers, none of
  which was in the set when the run began, and the set the run leaves is the
  set it began with and these identifiers. Each step of the loop over the rows
  appends the record and adds its identifier when the identifier is not in the
  set, and changes nothing when it is.
\<close>

theorem accumulated_ids_distinct:
  assumes "scrape_ipo_data int_of self w = (Inr (new, self'), w')"
  shows "distinct (map record_id new)
       \<and> set (map record_id new) \<inter> processed_ipos self = {}
       \<and> processed_ipos self' = processed_ipos self \<union> set (map record_id new)
       \<and> (\<forall>base row rows acc seen ipo_id d.
             extract_ipo_data base row = Inr (Some (ipo_id, d)) \<longrightarrow>
               ipo_id = record_id d
               \<and> process_rows base (row # rows) (acc, seen) =
                   process_rows base rows
                     (if ipo_id \<in> seen then (acc, seen) else (acc @ [d], insert ipo_id seen)))"
proof -
  have "grows ([], processed_ipos self) (new, processed_ipos self')"
    using scrape_cases [OF assms] by (auto simp add: grows_refl)
  then have "distinct (map record_id new)
       \<and> set (map record_id new) \<inter> processed_ipos self = {}
       \<and> processed_ipos self' = processed_ipos self \<union> set (map record_id new)"
    by (auto simp add: grows_def)
  moreover have "ipo_id = record_id d
       \<and> process_rows base (row # rows) (acc, seen) =
           process_rows base rows
             (if ipo_id \<in> seen then (acc, seen) else (acc @ [d], insert ipo_id seen))"
    if "extract_ipo_data base row = Inr (Some (ipo_id, d))"
    for base row rows acc seen ipo_id d
    using that extract_ipo_data_id [OF that] by (simp add: process_rows_step)
  ultimately show ?thesis by blast
qed

text \<open>
  A site of two pages, each listing Acme, Bolt and Acme again: the run
  accumulates two records.
\<close>

theorem accumulated_ids_distinct_witness:
  "\<exists>d1 d2 self' w'.
      main int_ascii (site two_pages) = (Inr ([d1, d2], self'), w')
      \<and> record_id d1 = ascii ''Acme_1 Jan 2024''
      \<and> record_id d2 = ascii ''Bolt_2 Feb 2024''
      \<and> distinct (map record_id [d1, d2])
      \<and> processed_ipos self' = {ascii ''Acme_1 Jan 2024'', ascii ''Bolt_2 Feb 2024''}"
proof -
  have "\<exists>d1 d2 self' w'.
      main int_ascii (site two_pages) = (Inr ([d1, d2], self'), w')
      \<and> record_id d1 = ascii ''Acme_1 Jan 2024''
      \<and> record_id d2 = ascii ''Bolt_2 Feb 2024''"
    by (simp add: run_eval page_eval example_eval text_eval int_eval record_id_def)
  then obtain d1 d2 self' w' where
    run: "main int_ascii (site two_pages) = (Inr ([d1, d2], self'), w')"
    and ids: "record_id d1 = ascii ''Acme_1 Jan 2024''" "record_id d2 = ascii ''Bolt_2 Feb 2024''"
    by blast
  from accumulated_ids_distinct [OF run [unfolded main_def]]
  have "distinct (map record_id [d1, d2])"
    and "processed_ipos self' =
      processed_ipos (IPOScraper (ascii ''https://www.screener.in'') (site two_pages))
        \<union> set (map record_id [d1, d2])"
    by blast+
  with run ids show ?thesis
    by (auto simp add: IPOScraper_def load_processed_ipos_def)
qed




text \<open>
  C8. A run that ends with an exception or without new records leaves every file
  as it was and writes nothing. A run that ends with new records writes the
  output table first and the file of identifiers second, and nothing else: after
  it the output file holds the table of the rows read back and the new records,
  the file of identifiers holds the list of the set the run leaves, which is the
  set it began with and the identifiers of the new records, and every other file
  is as it was. The second write is missing only when the file of identifiers
  cannot be opened for writing.
\<close>

theorem stores_written:
  assumes "scrape_ipo_data int_of self w = (result, w')"
  shows "case result of
           Inl e \<Rightarrow> files w' = files w \<and> writes (trace w') = writes (trace w)
         | Inr (new, self') \<Rightarrow>
             if new = [] then files w' = files w \<and> writes (trace w') = writes (trace w)
             else writes (trace w') = writes (trace w) @ [output_file self]
                    @ (if processed_file self \<in> locked w then [] else [processed_file self])
               \<and> files w' =
                   (if processed_file self \<in> locked w
                    then (files w)
                      (output_file self \<mapsto> Table (read_back w (output_file self) @ new))
                    else (files w)
                      (output_file self \<mapsto> Table (read_back w (output_file self) @ new),
                       processed_file self \<mapsto> Json (sorted_list_of_set (processed_ipos self'))))
               \<and> processed_ipos self' = processed_ipos self \<union> set (map record_id new)"
proof -
  from scrape_cases [OF assms(1)] show ?thesis
  proof (elim disjE exE conjE)
    assume "files w' = files w" "writes (trace w') = writes (trace w)"
      and "\<forall>new self'. result = Inr (new, self') \<longrightarrow> new = [] \<and> self' = self"
    then show ?thesis by (auto split: sum.splits)
  next
    fix self'
    assume "files w' = files w" "writes (trace w') = writes (trace w)"
      and "result = Inr ([], self')"
    then show ?thesis by simp
  next
    fix new self' w2
    assume *: "result = Inr (new, self')" "new \<noteq> []" "files w2 = files w"
      "locked w2 = locked w" "reread w2 = reread w" "writes (trace w2) = writes (trace w)"
      "output_file self' = output_file self" "processed_file self' = processed_file self"
      "save_data self' new w2 = Inr w'"
      and g: "grows ([], processed_ipos self) (new, processed_ipos self')"
    from *(3,5) have reads: "read_back w2 (output_file self) = read_back w (output_file self)"
      by (simp add: read_back_def split: option.split contents.split)
    from g have set: "processed_ipos self' = processed_ipos self \<union> set (map record_id new)"
      by (auto simp add: grows_def)
    from save_data_new [OF *(9) *(2)] * reads set
    show ?thesis by (simp add: save_processed_ipos_def writes_append)
  qed
qed

text \<open>
  An object that has seen Acme before finds nothing new on a site that lists Acme
  and writes nothing; a first run on the same site writes the two files in order,
  the table with the row of Acme and the list with its identifier.
\<close>

theorem stores_written_witness:
  "(\<exists>self' w'.
      scrape_ipo_data int_ascii returning_scraper (site (document [data_table [acme_row]]))
        = (Inr ([], self'), w')
      \<and> files w' = files (site (document [data_table [acme_row]]))
      \<and> writes (trace w') = [])
   \<and> (\<exists>d self' w'.
      main int_ascii (site (document [data_table [acme_row]])) = (Inr ([d], self'), w')
      \<and> record_id d = ascii ''Acme_1 Jan 2024''
      \<and> writes (trace w') = [''ipo_data.xlsx'', ''processed_ipos.json'']
      \<and> files w' = [''ipo_data.xlsx'' \<mapsto> Table [d],
                     ''processed_ipos.json'' \<mapsto> Json [ascii ''Acme_1 Jan 2024'']])"
proof -
  let ?w = "site (document [data_table [acme_row]])"
  have "\<exists>self' w'. scrape_ipo_data int_ascii returning_scraper ?w = (Inr ([], self'), w')"
    by (simp add: run_eval page_eval example_eval text_eval int_eval)
  then obtain s1 w1 where
    run1: "scrape_ipo_data int_ascii returning_scraper ?w = (Inr ([], s1), w1)"
    by blast
  from stores_written [OF run1]
  have "files w1 = files ?w \<and> writes (trace w1) = []"
    by (simp add: site_def)
  with run1 have first: "\<exists>self' w'.
      scrape_ipo_data int_ascii returning_scraper ?w = (Inr ([], self'), w')
      \<and> files w' = files ?w \<and> writes (trace w') = []"
    by blast
  have "\<exists>d self' w'. main int_ascii ?w = (Inr ([d], self'), w')
      \<and> record_id d = ascii ''Acme_1 Jan 2024''"
    by (simp add: run_eval page_eval example_eval text_eval int_eval record_id_def)
  then obtain d s2 w2 where run2: "main int_ascii ?w = (Inr ([d], s2), w2)"
    and id: "record_id d = ascii ''Acme_1 Jan 2024''"
    by blast
  from stores_written [OF run2 [unfolded main_def]] id
  have "writes (trace w2) = [''ipo_data.xlsx'', ''processed_ipos.json'']
      \<and> files w2 = [''ipo_data.xlsx'' \<mapsto> Table [d],
                     ''processed_ipos.json'' \<mapsto> Json [ascii ''Acme_1 Jan 2024'']]"
    by (simp add: site_def IPOScraper_def load_processed_ipos_def read_back_def)
  with run2 id have second: "\<exists>d self' w'. main int_ascii ?w = (Inr ([d], self'), w')
      \<and> record_id d = ascii ''Acme_1 Jan 2024''
      \<and> writes (trace w') = [''ipo_data.xlsx'', ''processed_ipos.json'']
      \<and> files w' = [''ipo_data.xlsx'' \<mapsto> Table [d],
                     ''processed_ipos.json'' \<mapsto> Json [ascii ''Acme_1 Jan 2024'']]"
    by blast
  from first second show ?thesis by blast
qed

section \<open>Where the program falls short of its specification\<close>

text \<open>
  C1. A row whose first cell holds text and no link: \<open>_extract_ipo_data\<close> returns
  \<open>None\<close> for it, and the loop over the rows, which unpacks the result into two
  names, ends with TypeError whatever rows follow. On a page that lists such a
  row before the row of Acme the whole run ends with TypeError and writes no
  file.
\<close>

theorem row_without_link_ends_run:
  "extract_ipo_data base (Elem ''tr'' [] (Elem ''td'' [] [Text t] # cells)) = Inr None
   \<and> process_rows base (Elem ''tr'' [] (Elem ''td'' [] [Text t] # cells) # rows) state
       = Inl TypeError
   \<and> fst (main int_ascii (site (document [data_table [plain_row, acme_row]]))) = Inl TypeError
   \<and> files (snd (main int_ascii (site (document [data_table [plain_row, acme_row]]))))
       = Map.empty"
proof -
  have none: "extract_ipo_data base (Elem ''tr'' [] (Elem ''td'' [] [Text t] # cells)) = Inr None"
    by (simp add: extract_ipo_data_def page_eval)
  then have rows: "process_rows base (Elem ''tr'' [] (Elem ''td'' [] [Text t] # cells) # rows) state
       = Inl TypeError"
    by (cases state) simp
  have run: "main int_ascii (site (document [data_table [plain_row, acme_row]])) =
      (Inl TypeError,
       site (document [data_table [plain_row, acme_row]])
         \<lparr>requests := 2,
          trace := [Get (ascii ''https://www.screener.in/ipo/recent/''),
                    Get (ascii ''https://www.screener.in/ipo/recent/?page=1'')]\<rparr>)"
    by (simp add: run_eval page_eval example_eval text_eval int_eval)
  from none rows show ?thesis
    unfolding run by (simp add: site_def)
qed

text \<open>
  C2. A row whose first cell holds a link and which has one cell, or five:
  \<open>_extract_ipo_data\<close> ends with IndexError, and so does the run on a page that
  lists such a row.
\<close>

theorem short_row_ends_run:
  "extract_ipo_data base short_row = Inl IndexError
   \<and> extract_ipo_data base five_cell_row = Inl IndexError
   \<and> fst (main int_ascii (site (document [data_table [short_row, acme_row]]))) = Inl IndexError
   \<and> fst (main int_ascii (site (document [data_table [five_cell_row, acme_row]])))
       = Inl IndexError"
proof -
  have "extract_ipo_data base short_row = Inl IndexError"
    by (simp add: extract_ipo_data_def page_eval example_eval)
  moreover have "extract_ipo_data base five_cell_row = Inl IndexError"
    by (simp add: extract_ipo_data_def page_eval example_eval)
  moreover have
    "fst (main int_ascii (site (document [data_table [short_row, acme_row]]))) = Inl IndexError"
    by (simp add: run_eval page_eval example_eval text_eval int_eval)
  moreover have
    "fst (main int_ascii (site (document [data_table [five_cell_row, acme_row]])))
       = Inl IndexError"
    by (simp add: run_eval page_eval example_eval text_eval int_eval)
  ultimately show ?thesis by simp
qed

text \<open>
  What \<open>_save_processed_ipos\<close> writes, \<open>_load_processed_ipos\<close> reads back when it is
  called on an object that has the attribute \<open>processed_file\<close>.
\<close>

lemma load_after_save:
  assumes "finite (processed_ipos self)" and "processed_file self \<notin> locked w"
  shows "load_processed_ipos (Some (processed_file self)) (save_processed_ipos self w)
       = processed_ipos self"
  using assms by (simp add: load_processed_ipos_def save_processed_ipos_def)

text \<open>
  C10. The only call of \<open>_load_processed_ipos\<close> is the one in \<open>__init__\<close>, before
  \<open>processed_file\<close> is assigned: an object built after the set holding the
  identifier of Acme has been saved starts with the empty set.
\<close>

theorem load_in_constructor_is_empty:
  "files (save_processed_ipos returning_scraper (site soup)) ''processed_ipos.json''
     = Some (Json [ascii ''Acme_1 Jan 2024''])
   \<and> processed_ipos (IPOScraper base (save_processed_ipos returning_scraper (site soup))) = {}"
  by (simp add: save_processed_ipos_def returning_scraper_def site_def IPOScraper_def
      load_processed_ipos_def)

text \<open>
  C6. Two runs in succession on a site that lists Acme and does not change: the
  first run saves the identifier of Acme, the second run accumulates the record
  of Acme again, and the output table then holds it twice.
\<close>

theorem second_run_repeats_first:
  "\<exists>d self1 w1 self2 w2.
      main int_ascii (site (document [data_table [acme_row]])) = (Inr ([d], self1), w1)
      \<and> files w1 ''processed_ipos.json'' = Some (Json [record_id d])
      \<and> net w1 = net (site (document [data_table [acme_row]]))
      \<and> main int_ascii w1 = (Inr ([d], self2), w2)
      \<and> rows_of w2 ''ipo_data.xlsx'' = [d, d]"
  by (simp add: run_eval page_eval example_eval text_eval int_eval record_id_def)

end
